theory Spec2Isabelle
  imports Complex_Main "HOL-Library.Multiset" "HOL-Library.Char_ord" "HOL-Library.List_Lexorder"
begin

section \<open>Pitch-based voice classification (gpc.py)\<close>

text \<open>
  A shallow embedding of \<^verbatim>\<open>gpc.py\<close>. Labels are Python strings and stay strings
  here, since the source compares a predicted label with an arbitrary ground-truth string.
  Frequencies are binary64 floats. A finite float is a real number, so a frequency is a
  real here, and the comparisons with the integer thresholds of the source are exact on
  it; the arithmetic of \<^verbatim>\<open>np.mean\<close> rounds every intermediate result to binary64 and
  is modelled with that rounding. The two calls into librosa
  (\<^verbatim>\<open>librosa.load\<close>, \<^verbatim>\<open>librosa.pyin\<close>) are parameters of the model: each
  either raises or returns a value.
\<close>

subsection \<open>Module constants\<close>

definition RESULTS_CSV :: string where
  "RESULTS_CSV = ''results.csv''"

text \<open>\<^verbatim>\<open>os.path.join\<close> with two components, on a POSIX system.\<close>

definition path_join :: "string \<Rightarrow> string \<Rightarrow> string" where
  "path_join a b =
     (if b \<noteq> [] \<and> hd b = CHR ''/'' then b
      else if a = [] \<or> last a = CHR ''/'' then a @ b
      else a @ ''/'' @ b)"

definition META_CSV :: string where
  "META_CSV = path_join ''data'' ''meta.csv''"

definition AUDIO_DIR :: string where
  "AUDIO_DIR = path_join ''data'' ''audio''"

subsection \<open>The collaborators\<close>

text \<open>
  An exception raised inside the \<^verbatim>\<open>try\<close> block of \<^verbatim>\<open>classify_gender\<close>; the
  string is its message.
\<close>

datatype exn = Exception string

text \<open>
  One entry of the array \<^verbatim>\<open>f0\<close> that \<^verbatim>\<open>librosa.pyin\<close> returns: a frequency in
  Hz for a voiced frame, NaN for an unvoiced one.
\<close>

datatype f0_value = NaN | Hz real

text \<open>
  \<^verbatim>\<open>librosa.load(audio_path, sr=None)\<close> maps a path to the pair
  \<^verbatim>\<open>(audio_data, fs)\<close>, of type \<open>'w\<close> here, or raises;
  \<^verbatim>\<open>librosa.pyin(audio_data, fmin=50, fmax=300, sr=fs)\<close> maps that pair to the
  per-frame values, or raises.
\<close>

type_synonym 'w loader = "string \<Rightarrow> exn + 'w"
type_synonym 'w tracker = "'w \<Rightarrow> exn + f0_value list"

subsection \<open>classify\_gender\<close>

text \<open>\<^verbatim>\<open>f0[~np.isnan(f0)]\<close>: the entries that are not NaN, in order.\<close>

fun remove_nan :: "f0_value list \<Rightarrow> real list" where
  "remove_nan [] = []"
| "remove_nan (NaN # fs) = remove_nan fs"
| "remove_nan (Hz x # fs) = x # remove_nan fs"

subsection \<open>Binary64 arithmetic and np.mean\<close>

text \<open>
  Rounding to binary64: 53 significant bits, round to nearest, ties to even. The exponent
  range is not bounded here: the values of \<^verbatim>\<open>pyin\<close> lie between
  \<^verbatim>\<open>fmin=50\<close> and \<^verbatim>\<open>fmax=300\<close>, and their sums stay far from overflow and from
  the subnormal range.
\<close>

definition pow2 :: "int \<Rightarrow> real" where
  "pow2 e = (if 0 \<le> e then 2 ^ nat e else 1 / 2 ^ nat (- e))"

text \<open>The exponent \<open>e\<close> of a positive \<open>x\<close>: \<open>2 ^ e \<le> x < 2 ^ (e + 1)\<close>.\<close>

function binade :: "real \<Rightarrow> int" where
  "binade x =
     (if x \<le> 0 then 0
      else if 2 \<le> x then binade (x / 2) + 1
      else if x < 1 then binade (2 * x) - 1
      else 0)"
  by pat_completeness auto
termination
proof (relation "measure (\<lambda>x. nat \<lfloor>x\<rfloor> + 2 * nat \<lceil>1 / x\<rceil>)")
  show "wf (measure (\<lambda>x::real. nat \<lfloor>x\<rfloor> + 2 * nat \<lceil>1 / x\<rceil>))"
    by simp
next
  fix x :: real
  assume a: "\<not> x \<le> 0" "2 \<le> x"
  have c1: "\<lceil>1 / x\<rceil> = 1"
    using a by (intro ceiling_unique) auto
  have c2: "\<lceil>1 / (x / 2)\<rceil> = 1"
    using a by (intro ceiling_unique) auto
  have "\<lfloor>x / 2\<rfloor> < \<lfloor>x\<rfloor>"
  proof -
    have "x / 2 < of_int \<lfloor>x\<rfloor>"
    proof -
      have "x - 1 < of_int \<lfloor>x\<rfloor>" by linarith
      moreover have "x / 2 \<le> x - 1" using a by simp
      ultimately show ?thesis by linarith
    qed
    then show ?thesis by (simp add: floor_less_iff)
  qed
  moreover have "0 \<le> \<lfloor>x / 2\<rfloor>" using a by simp
  ultimately have
    "nat \<lfloor>x / 2\<rfloor> + 2 * nat \<lceil>1 / (x / 2)\<rceil> < nat \<lfloor>x\<rfloor> + 2 * nat \<lceil>1 / x\<rceil>"
    unfolding c1 c2 by linarith
  then show "(x / 2, x) \<in> measure (\<lambda>x. nat \<lfloor>x\<rfloor> + 2 * nat \<lceil>1 / x\<rceil>)"
    by (simp only: in_measure)
next
  fix x :: real
  assume a: "\<not> x \<le> 0" "\<not> 2 \<le> x" "x < 1"
  show "(2 * x, x) \<in> measure (\<lambda>x. nat \<lfloor>x\<rfloor> + 2 * nat \<lceil>1 / x\<rceil>)"
  proof (cases "1 \<le> 2 * x")
    case True
    have f: "\<lfloor>2 * x\<rfloor> = 1" using a True by (intro floor_unique) auto
    have c: "\<lceil>1 / (2 * x)\<rceil> = 1" using a True by (intro ceiling_unique) auto
    have "1 < 1 / x" using a by simp
    then have "2 \<le> \<lceil>1 / x\<rceil>" by linarith
    moreover have "\<lfloor>x\<rfloor> = 0" using a by (intro floor_unique) auto
    ultimately have
      "nat \<lfloor>2 * x\<rfloor> + 2 * nat \<lceil>1 / (2 * x)\<rceil> < nat \<lfloor>x\<rfloor> + 2 * nat \<lceil>1 / x\<rceil>"
      unfolding f c by linarith
    then show ?thesis by (simp only: in_measure)
  next
    case False
    have f: "\<lfloor>2 * x\<rfloor> = 0" using a False by (intro floor_unique) auto
    have f0: "\<lfloor>x\<rfloor> = 0" using a by (intro floor_unique) auto
    have y: "2 < 1 / x" using a False by (simp add: field_simps)
    have "1 / (2 * x) \<le> 1 / x - 1" using y a by (simp add: field_simps)
    then have "\<lceil>1 / (2 * x)\<rceil> \<le> \<lceil>1 / x - 1\<rceil>" by (rule ceiling_mono)
    then have lt: "\<lceil>1 / (2 * x)\<rceil> < \<lceil>1 / x\<rceil>" by simp
    have "0 < \<lceil>1 / x\<rceil>" using y by linarith
    then have
      "nat \<lfloor>2 * x\<rfloor> + 2 * nat \<lceil>1 / (2 * x)\<rceil> < nat \<lfloor>x\<rfloor> + 2 * nat \<lceil>1 / x\<rceil>"
      unfolding f f0 using lt by linarith
    then show ?thesis by (simp only: in_measure)
  qed
qed

declare binade.simps [simp del]

text \<open>The integer nearest to \<open>q\<close>; of two nearest integers, the even one.\<close>

definition round_half_even :: "real \<Rightarrow> int" where
  "round_half_even q =
     (let f = \<lfloor>q\<rfloor>; d = q - of_int f
      in if d < 1 / 2 then f
         else if 1 / 2 < d then f + 1
         else if even f then f else f + 1)"

text \<open>
  The binary64 value nearest to \<open>x\<close>: the nearest multiple of the unit in the last place
  of the binade of \<open>x\<close>.
\<close>

definition f64_round :: "real \<Rightarrow> real" where
  "f64_round x =
     (if x = 0 then 0
      else (let ulp = pow2 (binade \<bar>x\<bar> - 52)
            in of_int (round_half_even (x / ulp)) * ulp))"

definition f64_add :: "real \<Rightarrow> real \<Rightarrow> real" where
  "f64_add a b = f64_round (a + b)"

definition f64_div :: "real \<Rightarrow> real \<Rightarrow> real" where
  "f64_div a b = f64_round (a / b)"

text \<open>
  \<^verbatim>\<open>np.mean\<close> is not code of this repository. On a one-dimensional float64 array it
  is \<^verbatim>\<open>np.add.reduce\<close> followed by one division by the number of elements
  (\<^verbatim>\<open>_mean\<close> in \<^verbatim>\<open>numpy/core/_methods.py\<close>), and the reduction adds the
  result of numpy's pairwise summation (\<^verbatim>\<open>pairwise_sum\<close> in
  \<^verbatim>\<open>numpy/core/src/umath/loops_utils.h.src\<close>) to the identity 0. The pairwise
  summation is what follows: below 8 elements a plain loop from left to right; up to 128
  elements eight running sums over the blocks of eight, combined as a balanced tree, and
  then the rest added one by one; above that a split near the middle, at a multiple of 8.
\<close>

text \<open>
  The unrolled loop \<^verbatim>\<open>for (i = 8; i < n - (n % 8); i += 8) r[j] += a[i + j]\<close>: it
  returns the eight running sums and the elements that are left.
\<close>

function unrolled :: "real list \<Rightarrow> real list \<Rightarrow> real list \<times> real list" where
  "unrolled r xs =
     (if 8 \<le> length xs then unrolled (map2 f64_add r (take 8 xs)) (drop 8 xs) else (r, xs))"
  by pat_completeness auto
termination
  by (relation "measure (\<lambda>(r, xs). length xs)") auto

declare unrolled.simps [simp del]

text \<open>
  \<^verbatim>\<open>((r[0] + r[1]) + (r[2] + r[3])) + ((r[4] + r[5]) + (r[6] + r[7]))\<close>; the second
  equation is never reached, \<open>unrolled\<close> keeps eight sums.
\<close>

fun sum8 :: "real list \<Rightarrow> real" where
  "sum8 [r0, r1, r2, r3, r4, r5, r6, r7] =
     f64_add (f64_add (f64_add r0 r1) (f64_add r2 r3)) (f64_add (f64_add r4 r5) (f64_add r6 r7))"
| "sum8 _ = 0"

function pairwise_sum :: "real list \<Rightarrow> real" where
  "pairwise_sum a =
     (if length a < 8 then foldl f64_add 0 a
      else if length a \<le> 128 then
        (case unrolled (take 8 a) (drop 8 a) of (r, rest) \<Rightarrow> foldl f64_add (sum8 r) rest)
      else
        (let n2 = length a div 2 - (length a div 2) mod 8
         in f64_add (pairwise_sum (take n2 a)) (pairwise_sum (drop n2 a))))"
  by pat_completeness auto
termination
  by (relation "measure length") auto

declare pairwise_sum.simps [simp del]

text \<open>\<^verbatim>\<open>np.mean\<close> of a non-empty one-dimensional float64 array.\<close>

definition np_mean :: "real list \<Rightarrow> real" where
  "np_mean a = f64_div (f64_add 0 (pairwise_sum a)) (real (length a))"

subsection \<open>classify\_gender, continued\<close>

text \<open>
  The result is the pair \<^verbatim>\<open>(predicted_label, mean_frequency)\<close>; \<open>None\<close> is
  Python's \<^verbatim>\<open>None\<close>. Both \<^verbatim>\<open>Inl\<close> branches are the \<^verbatim>\<open>except Exception\<close>
  handler.
\<close>

definition classify_gender :: "'w loader \<Rightarrow> 'w tracker \<Rightarrow> string \<Rightarrow> string \<times> real option" where
  "classify_gender load pyin audio_path =
     (case load audio_path of
        Inl e \<Rightarrow> (''error'', None)
      | Inr audio \<Rightarrow>
          (case pyin audio of
             Inl e \<Rightarrow> (''error'', None)
           | Inr f0_all \<Rightarrow>
               (let f0 = remove_nan f0_all in
                if length f0 = 0 then (''unclassified'', None)
                else
                  (let mean_freq = np_mean f0 in
                   if 85 \<le> mean_freq \<and> mean_freq \<le> 150 then (''male'', Some mean_freq)
                   else if 150 < mean_freq \<and> mean_freq \<le> 255 then (''female'', Some mean_freq)
                   else (''unclassified'', Some mean_freq)))))"

subsection \<open>process\_file\<close>

text \<open>
  The dictionary that \<^verbatim>\<open>process_file\<close> returns. The source stores
  \<^verbatim>\<open>mean_freq\<close> formatted with \<^verbatim>\<open>:.2f\<close> (the empty string for
  \<^verbatim>\<open>None\<close>); the record keeps the value that is formatted. The key
  \<^verbatim>\<open>'file'\<close> is the field \<open>file_name\<close>.
\<close>

record row =
  file_name :: string
  predicted :: string
  mean_freq :: "real option"
  ground_truth :: string
  correct :: bool
  unclassified :: bool
  incorrect :: bool

text \<open>\<^verbatim>\<open>ground_truth.get(fname, 'unknown')\<close>\<close>

definition dict_get :: "('k \<rightharpoonup> 'v) \<Rightarrow> 'k \<Rightarrow> 'v \<Rightarrow> 'v" where
  "dict_get d k dflt = (case d k of None \<Rightarrow> dflt | Some v \<Rightarrow> v)"

definition process_file ::
  "'w loader \<Rightarrow> 'w tracker \<Rightarrow> string \<times> (string \<rightharpoonup> string) \<Rightarrow> row" where
  "process_file load pyin args =
     (let (fname, truth) = args;
          audio_path = path_join AUDIO_DIR fname;
          (pred_label, mean) = classify_gender load pyin audio_path;
          true_label = dict_get truth fname ''unknown''
      in \<lparr> file_name = fname,
           predicted = pred_label,
           mean_freq = mean,
           ground_truth = true_label,
           correct = (pred_label = true_label \<and> pred_label \<in> set [''male'', ''female'']),
           unclassified = (pred_label \<notin> set [''male'', ''female'']),
           incorrect = (pred_label \<in> set [''male'', ''female''] \<and> pred_label \<noteq> true_label) \<rparr>)"

subsection \<open>main\<close>

text \<open>The parsed command line: \<^verbatim>\<open>args.all\<close> and \<^verbatim>\<open>args.threads\<close>.\<close>

record cli_args =
  opt_all :: bool
  opt_threads :: int

definition endswith :: "string \<Rightarrow> string \<Rightarrow> bool" where
  "endswith s suf = (length suf \<le> length s \<and> drop (length s - length suf) s = suf)"

text \<open>
  Lines 99 to 102: the directory listing filtered to \<^verbatim>\<open>.mp3\<close>, sorted, and cut to
  its first ten entries unless \<^verbatim>\<open>--all\<close> was given. Python orders strings
  lexicographically by code point; the order on \<open>string\<close> is lexicographic by byte,
  which is the same order on UTF-8 text.
\<close>

definition candidates :: "string list \<Rightarrow> string list" where
  "candidates listing = sort [f \<leftarrow> listing. endswith f ''.mp3'']"

definition select_files :: "cli_args \<Rightarrow> string list \<Rightarrow> string list" where
  "select_files args listing =
     (let audio_files = candidates listing
      in if \<not> opt_all args then take 10 audio_files else audio_files)"

text \<open>
  The local variables \<^verbatim>\<open>results\<close>, \<^verbatim>\<open>correct\<close>, \<^verbatim>\<open>incorrect\<close>,
  \<^verbatim>\<open>unclassified\<close> and \<^verbatim>\<open>total\<close> of \<^verbatim>\<open>main\<close>. The counters are prefixed
  with \<open>n_\<close> because the names are taken by the fields of \<open>row\<close>.
\<close>

record tally =
  results :: "row list"
  n_correct :: nat
  n_incorrect :: nat
  n_unclassified :: nat
  n_total :: nat

definition tally0 :: tally where
  "tally0 = \<lparr> results = [], n_correct = 0, n_incorrect = 0, n_unclassified = 0, n_total = 0 \<rparr>"

text \<open>
  The body of either collecting loop, after \<^verbatim>\<open>row\<close> has been obtained: append, then
  the \<^verbatim>\<open>if / elif / elif\<close> chain, then \<^verbatim>\<open>total += 1\<close>.
\<close>

definition record_row :: "tally \<Rightarrow> row \<Rightarrow> tally" where
  "record_row st r =
     (let st1 = st\<lparr> results := results st @ [r] \<rparr>;
          st2 = (if correct r then st1\<lparr> n_correct := n_correct st1 + 1 \<rparr>
                 else if unclassified r then st1\<lparr> n_unclassified := n_unclassified st1 + 1 \<rparr>
                 else if incorrect r then st1\<lparr> n_incorrect := n_incorrect st1 + 1 \<rparr>
                 else st1)
      in st2\<lparr> n_total := n_total st2 + 1 \<rparr>)"

text \<open>
  \<^verbatim>\<open>as_completed(futures)\<close> yields every future once, in the order in which the
  tasks finish. That order is the scheduler's choice; it is the parameter \<open>order\<close>, the
  list of the positions of the futures in completion order.
\<close>

definition as_completed :: "'a list \<Rightarrow> nat list \<Rightarrow> 'a list" where
  "as_completed futures order = map (\<lambda>i. futures ! i) order"

definition completion_order :: "nat \<Rightarrow> nat list \<Rightarrow> bool" where
  "completion_order n order = (mset order = mset [0..<n])"

definition collect_threaded ::
  "'w loader \<Rightarrow> 'w tracker \<Rightarrow> (string \<rightharpoonup> string) \<Rightarrow> string list \<Rightarrow> nat list \<Rightarrow> tally" where
  "collect_threaded load pyin truth audio_files order =
     (let tasks = map (\<lambda>fname. (fname, truth)) audio_files;
          futures = map (process_file load pyin) tasks
      in foldl record_row tally0 (as_completed futures order))"

definition collect_sequential ::
  "'w loader \<Rightarrow> 'w tracker \<Rightarrow> (string \<rightharpoonup> string) \<Rightarrow> string list \<Rightarrow> tally" where
  "collect_sequential load pyin truth audio_files =
     foldl (\<lambda>st fname. record_row st (process_file load pyin (fname, truth))) tally0 audio_files"

text \<open>The results table: the header and one line per row, cut to the five columns.\<close>

definition fieldnames :: "string list" where
  "fieldnames = [''file'', ''predicted'', ''mean_freq'', ''ground_truth'', ''correct'']"

type_synonym csv_line = "string \<times> string \<times> real option \<times> string \<times> bool"

definition csv_line_of :: "row \<Rightarrow> csv_line" where
  "csv_line_of r = (file_name r, predicted r, mean_freq r, ground_truth r, correct r)"

text \<open>Python's true division of two integers.\<close>

datatype py_error = ZeroDivisionError

definition truediv :: "nat \<Rightarrow> nat \<Rightarrow> py_error + real" where
  "truediv a b = (if b = 0 then Inl ZeroDivisionError else Inr (real a / real b))"

text \<open>
  Lines 147 to 150: the three rates, printed only when \<^verbatim>\<open>total > 0\<close>. \<open>None\<close>
  is the run that prints no rate.
\<close>

definition rates :: "tally \<Rightarrow> py_error + (real \<times> real \<times> real) option" where
  "rates st =
     (if n_total st > 0 then
        (case truediv (n_correct st) (n_total st) of
           Inl e \<Rightarrow> Inl e
         | Inr success \<Rightarrow>
             (case truediv (n_incorrect st) (n_total st) of
                Inl e \<Rightarrow> Inl e
              | Inr failure \<Rightarrow>
                  (case truediv (n_unclassified st) (n_total st) of
                     Inl e \<Rightarrow> Inl e
                   | Inr unclass \<Rightarrow> Inr (Some (success, failure, unclass)))))
      else Inr None)"

text \<open>
  What a run leaves behind: the table written to \<^verbatim>\<open>results.csv\<close>, the counters that
  are printed, and the rates.
\<close>

record run_output =
  table_header :: "string list"
  table_lines :: "csv_line list"
  summary :: tally
  printed_rates :: "(real \<times> real \<times> real) option"

text \<open>
  \<^verbatim>\<open>main\<close>, from the directory listing and the loaded ground truth on. The inputs
  are the parsed arguments, the result of \<^verbatim>\<open>os.listdir(AUDIO_DIR)\<close>, the dictionary
  returned by \<^verbatim>\<open>load_ground_truth\<close>, the two librosa calls and the completion order
  of the thread pool, which only the branch \<^verbatim>\<open>args.threads > 1\<close> reads.
\<close>

definition main ::
  "cli_args \<Rightarrow> string list \<Rightarrow> (string \<rightharpoonup> string) \<Rightarrow> 'w loader \<Rightarrow> 'w tracker \<Rightarrow> nat list
     \<Rightarrow> py_error + run_output" where
  "main args listing truth load pyin order =
     (let audio_files = select_files args listing;
          st = (if opt_threads args > 1
                then collect_threaded load pyin truth audio_files order
                else collect_sequential load pyin truth audio_files)
      in case rates st of
           Inl e \<Rightarrow> Inl e
         | Inr rs \<Rightarrow>
             Inr \<lparr> table_header = fieldnames,
                   table_lines = map csv_line_of (results st),
                   summary = st,
                   printed_rates = rs \<rparr>)"

subsection \<open>The fold of the specification\<close>

text \<open>
  The specification derives the aggregate counts by one fold over the finished sequence
  of records, counting the records by their flags. This definition follows the
  specification's words, not the source; it is compared with the counters of
  \<open>record_row\<close> below. The components are total, correct, incorrect, unclassified.
\<close>

definition count_flags :: "row \<Rightarrow> nat \<times> nat \<times> nat \<times> nat \<Rightarrow> nat \<times> nat \<times> nat \<times> nat" where
  "count_flags r acc =
     (case acc of (t, c, i, u) \<Rightarrow>
        (t + 1, c + of_bool (correct r), i + of_bool (incorrect r), u + of_bool (unclassified r)))"

definition fold_summary :: "row list \<Rightarrow> nat \<times> nat \<times> nat \<times> nat" where
  "fold_summary rs = fold count_flags rs (0, 0, 0, 0)"

definition counters :: "tally \<Rightarrow> nat \<times> nat \<times> nat \<times> nat" where
  "counters st = (n_total st, n_correct st, n_incorrect st, n_unclassified st)"

subsection \<open>Auxiliary notions for the proofs\<close>

text \<open>The rows a run collects, in the order of collection.\<close>

definition collected ::
  "cli_args \<Rightarrow> string list \<Rightarrow> (string \<rightharpoonup> string) \<Rightarrow> 'w loader \<Rightarrow> 'w tracker \<Rightarrow> nat list
     \<Rightarrow> row list" where
  "collected args listing truth load pyin order =
     (if opt_threads args > 1
      then as_completed
             (map (\<lambda>fname. process_file load pyin (fname, truth)) (select_files args listing)) order
      else map (\<lambda>fname. process_file load pyin (fname, truth)) (select_files args listing))"

text \<open>Exactly one of the three flags of a row is set.\<close>

definition one_flag :: "row \<Rightarrow> bool" where
  "one_flag r =
     ((correct r \<and> \<not> incorrect r \<and> \<not> unclassified r)
      \<or> (\<not> correct r \<and> incorrect r \<and> \<not> unclassified r)
      \<or> (\<not> correct r \<and> \<not> incorrect r \<and> unclassified r))"

subsection \<open>A small data set\<close>

text \<open>
  Five clips, a file that is not audio, and a ground-truth table that misses the fifth
  clip. The waveform of a clip is identified with its path. Clip 4 fails to decode, the
  tracker fails on clip 5, clip 2 has no voiced frame.
\<close>

definition demo_load :: "string loader" where
  "demo_load p =
     (if p = ''data/audio/clip4.mp3'' then Inl (Exception ''decode fault'') else Inr p)"

definition demo_pyin :: "string tracker" where
  "demo_pyin w =
     (if w = ''data/audio/clip1.mp3'' then Inr [NaN, Hz 110, Hz 130, NaN]
      else if w = ''data/audio/clip2.mp3'' then Inr [NaN, NaN]
      else if w = ''data/audio/clip3.mp3'' then Inr [Hz 200]
      else if w = ''data/audio/clip5.mp3'' then Inl (Exception ''tracker fault'')
      else Inr [Hz 40])"

definition demo_truth :: "string \<rightharpoonup> string" where
  "demo_truth = [''clip1.mp3'' \<mapsto> ''male'', ''clip2.mp3'' \<mapsto> ''female'',
                 ''clip3.mp3'' \<mapsto> ''male'', ''clip4.mp3'' \<mapsto> ''female'']"

definition demo_listing :: "string list" where
  "demo_listing =
     [''clip3.mp3'', ''notes.txt'', ''clip1.mp3'', ''clip5.mp3'', ''clip2.mp3'', ''clip4.mp3'']"



text \<open>A directory with eleven clips and one other file.\<close>

definition long_listing :: "string list" where
  "long_listing =
     [''k.mp3'', ''c.mp3'', ''a.mp3'', ''j.mp3'', ''readme.md'', ''b.mp3'', ''e.mp3'', ''d.mp3'',
      ''g.mp3'', ''f.mp3'', ''i.mp3'', ''h.mp3'']"

section \<open>Auxiliary lemmas\<close>

lemma process_file_eq:
  "process_file load pyin (fname, truth) =
     \<lparr> file_name = fname,
       predicted = fst (classify_gender load pyin (path_join AUDIO_DIR fname)),
       mean_freq = snd (classify_gender load pyin (path_join AUDIO_DIR fname)),
       ground_truth = dict_get truth fname ''unknown'',
       correct = (fst (classify_gender load pyin (path_join AUDIO_DIR fname)) = dict_get truth fname ''unknown''
                  \<and> fst (classify_gender load pyin (path_join AUDIO_DIR fname)) \<in> {''male'', ''female''}),
       unclassified = (fst (classify_gender load pyin (path_join AUDIO_DIR fname)) \<notin> {''male'', ''female''}),
       incorrect = (fst (classify_gender load pyin (path_join AUDIO_DIR fname)) \<in> {''male'', ''female''}
                  \<and> fst (classify_gender load pyin (path_join AUDIO_DIR fname)) \<noteq> dict_get truth fname ''unknown'') \<rparr>"
  by (simp add: process_file_def Let_def split: prod.splits)

lemma results_foldl_record_row:
  "results (foldl record_row st rs) = results st @ rs"
  by (induction rs arbitrary: st) (simp_all add: record_row_def Let_def)

lemma n_total_foldl_record_row:
  "n_total (foldl record_row st rs) = n_total st + length rs"
  by (induction rs arbitrary: st) (simp_all add: record_row_def Let_def)

lemma n_correct_foldl_record_row:
  "n_correct (foldl record_row st rs) = n_correct st + length (filter correct rs)"
  by (induction rs arbitrary: st) (simp_all add: record_row_def Let_def)

lemma n_unclassified_foldl_record_row:
  "n_unclassified (foldl record_row st rs) =
     n_unclassified st + length (filter (\<lambda>r. \<not> correct r \<and> unclassified r) rs)"
  by (induction rs arbitrary: st) (simp_all add: record_row_def Let_def)

lemma n_incorrect_foldl_record_row:
  "n_incorrect (foldl record_row st rs) =
     n_incorrect st + length (filter (\<lambda>r. \<not> correct r \<and> \<not> unclassified r \<and> incorrect r) rs)"
  by (induction rs arbitrary: st) (simp_all add: record_row_def Let_def)

lemma collect_sequential_foldl:
  "collect_sequential load pyin truth fs =
     foldl record_row tally0 (map (\<lambda>fname. process_file load pyin (fname, truth)) fs)"
  by (simp add: collect_sequential_def foldl_map)

lemma mset_as_completed:
  assumes "completion_order (length xs) order"
  shows "mset (as_completed xs order) = mset xs"
proof -
  have "mset (map (\<lambda>i. xs ! i) order) = image_mset (\<lambda>i. xs ! i) (mset order)"
    by simp
  also have "\<dots> = image_mset (\<lambda>i. xs ! i) (mset [0..<length xs])"
    using assms by (simp add: completion_order_def)
  also have "\<dots> = mset (map (\<lambda>i. xs ! i) [0..<length xs])"
    by simp
  also have "\<dots> = mset xs"
    by (simp add: map_nth)
  finally show ?thesis by (simp add: as_completed_def)
qed

lemma classify_gender_labels:
  "fst (classify_gender load pyin p) \<in> {''male'', ''female'', ''unclassified'', ''error''}"
  by (simp add: classify_gender_def Let_def split: sum.splits)

lemma rates_Inr:
  "rates st =
     Inr (if n_total st > 0
          then Some (real (n_correct st) / real (n_total st),
                     real (n_incorrect st) / real (n_total st),
                     real (n_unclassified st) / real (n_total st))
          else None)"
  by (simp add: rates_def truediv_def)

lemma main_Inr:
  "main args listing truth load pyin order =
     Inr \<lparr> table_header = fieldnames,
           table_lines = map csv_line_of (results
             (if opt_threads args > 1
              then collect_threaded load pyin truth (select_files args listing) order
              else collect_sequential load pyin truth (select_files args listing))),
           summary =
             (if opt_threads args > 1
              then collect_threaded load pyin truth (select_files args listing) order
              else collect_sequential load pyin truth (select_files args listing)),
           printed_rates =
             (let st = (if opt_threads args > 1
                        then collect_threaded load pyin truth (select_files args listing) order
                        else collect_sequential load pyin truth (select_files args listing))
              in if n_total st > 0
                 then Some (real (n_correct st) / real (n_total st),
                            real (n_incorrect st) / real (n_total st),
                            real (n_unclassified st) / real (n_total st))
                 else None) \<rparr>"
  by (simp add: main_def rates_Inr Let_def)

lemma collect_threaded_foldl:
  "collect_threaded load pyin truth fs order =
     foldl record_row tally0
       (as_completed (map (\<lambda>fname. process_file load pyin (fname, truth)) fs) order)"
  by (simp add: collect_threaded_def Let_def comp_def)

lemma main_collected:
  "\<exists>out. main args listing truth load pyin order = Inr out
     \<and> summary out = foldl record_row tally0 (collected args listing truth load pyin order)
     \<and> table_header out = fieldnames
     \<and> table_lines out = map csv_line_of (results (summary out))
     \<and> printed_rates out =
         (if n_total (summary out) > 0
          then Some (real (n_correct (summary out)) / real (n_total (summary out)),
                     real (n_incorrect (summary out)) / real (n_total (summary out)),
                     real (n_unclassified (summary out)) / real (n_total (summary out)))
          else None)"
  by (simp add: main_Inr collected_def collect_threaded_foldl collect_sequential_foldl Let_def)

lemma mset_collected:
  assumes "opt_threads args > 1 \<longrightarrow> completion_order (length (select_files args listing)) order"
  shows "mset (collected args listing truth load pyin order) =
         mset (map (\<lambda>fname. process_file load pyin (fname, truth)) (select_files args listing))"
  using assms by (simp add: collected_def mset_as_completed)

lemma collected_rows:
  assumes "opt_threads args > 1 \<longrightarrow> completion_order (length (select_files args listing)) order"
    and "r \<in> set (collected args listing truth load pyin order)"
  shows "\<exists>fname \<in> set (select_files args listing). r = process_file load pyin (fname, truth)"
proof -
  have "r \<in># mset (collected args listing truth load pyin order)"
    using assms(2) by simp
  then have "r \<in># mset (map (\<lambda>fname. process_file load pyin (fname, truth)) (select_files args listing))"
    using mset_collected [OF assms(1)] by metis
  then show ?thesis by auto
qed

lemma tally_foldl:
  "results (foldl record_row tally0 rs) = rs"
  "n_total (foldl record_row tally0 rs) = length rs"
  "n_correct (foldl record_row tally0 rs) = length (filter correct rs)"
  "n_unclassified (foldl record_row tally0 rs) = length (filter (\<lambda>r. \<not> correct r \<and> unclassified r) rs)"
  "n_incorrect (foldl record_row tally0 rs) = length (filter (\<lambda>r. \<not> correct r \<and> \<not> unclassified r \<and> incorrect r) rs)"
  by (simp_all add: results_foldl_record_row n_total_foldl_record_row n_correct_foldl_record_row
      n_unclassified_foldl_record_row n_incorrect_foldl_record_row tally0_def)

lemma filter_flags:
  assumes "\<forall>r \<in> set rs. one_flag r"
  shows "filter (\<lambda>r. \<not> correct r \<and> unclassified r) rs = filter unclassified rs"
    and "filter (\<lambda>r. \<not> correct r \<and> \<not> unclassified r \<and> incorrect r) rs = filter incorrect rs"
    and "length (filter correct rs) + length (filter incorrect rs) + length (filter unclassified rs) = length rs"
  using assms by (induction rs) (auto simp: one_flag_def)

lemma process_file_one_flag: "one_flag (process_file load pyin a)"
  by (cases a) (auto simp: one_flag_def process_file_eq)

lemmas f64_eval = np_mean_def pairwise_sum.simps unrolled.simps f64_add_def f64_div_def
  f64_round_def binade.simps pow2_def round_half_even_def Let_def

lemma np_mean_demo:
  "np_mean [110, 130] = 120"
  "np_mean [200] = 200"
  "np_mean [40] = 40"
  by (simp_all add: f64_eval)

lemma classify_gender_voiced:
  assumes "load p = Inr w" and "pyin w = Inr fs" and "remove_nan fs \<noteq> []"
  shows "classify_gender load pyin p =
     (let m = np_mean (remove_nan fs) in
      if 85 \<le> m \<and> m \<le> 150 then (''male'', Some m)
      else if 150 < m \<and> m \<le> 255 then (''female'', Some m)
      else (''unclassified'', Some m))"
  using assms by (simp add: classify_gender_def Let_def)

lemma length_filter_mset_cong:
  assumes "mset xs = mset ys"
  shows "length (filter P xs) = length (filter P ys)"
proof -
  have "length (filter P xs) = size (filter_mset P (mset xs))"
    by (metis mset_filter size_mset)
  also have "\<dots> = size (filter_mset P (mset ys))"
    using assms by simp
  also have "\<dots> = length (filter P ys)"
    by (metis mset_filter size_mset)
  finally show ?thesis .
qed

lemma counters_mset_cong:
  assumes "mset rs = mset rs'"
  shows "counters (foldl record_row tally0 rs) = counters (foldl record_row tally0 rs')"
  using assms mset_eq_length [OF assms]
  by (simp add: counters_def tally_foldl length_filter_mset_cong [OF assms])

lemma collected_one_flag:
  assumes "opt_threads args > 1 \<longrightarrow> completion_order (length (select_files args listing)) order"
  shows "\<forall>r \<in> set (collected args listing truth load pyin order). one_flag r"
  using collected_rows [OF assms] process_file_one_flag by blast

lemma fold_count_flags:
  "fold count_flags rs (t, c, i, u) =
     (t + length rs, c + length (filter correct rs), i + length (filter incorrect rs),
      u + length (filter unclassified rs))"
  by (induction rs arbitrary: t c i u) (simp_all add: count_flags_def)

lemma fold_summary_eq:
  "fold_summary rs =
     (length rs, length (filter correct rs), length (filter incorrect rs),
      length (filter unclassified rs))"
  by (simp add: fold_summary_def fold_count_flags)

lemma counters_one_flag:
  assumes "\<forall>r \<in> set rs. one_flag r"
  shows "counters (foldl record_row tally0 rs) =
     (length rs, length (filter correct rs), length (filter incorrect rs),
      length (filter unclassified rs))"
  by (simp add: counters_def tally_foldl filter_flags(1,2) [OF assms])

lemma set_collected:
  assumes "opt_threads args > 1 \<longrightarrow> completion_order (length (select_files args listing)) order"
  shows "set (collected args listing truth load pyin order) =
         (\<lambda>fname. process_file load pyin (fname, truth)) ` set (select_files args listing)"
proof -
  have "set (collected args listing truth load pyin order) =
        set (map (\<lambda>fname. process_file load pyin (fname, truth)) (select_files args listing))"
    using mset_collected [OF assms] by (rule mset_eq_setD)
  then show ?thesis by simp
qed

lemma file_name_process_file: "file_name (process_file load pyin (fname, truth)) = fname"
  by (simp add: process_file_eq)


lemma candidates_sorted_perm:
  "sorted (candidates listing)
   \<and> mset (candidates listing) = mset (filter (\<lambda>f. endswith f ''.mp3'') listing)"
  by (simp add: candidates_def)

lemma select_files_eq:
  "select_files args listing =
     (if opt_all args then candidates listing else take 10 (candidates listing))"
  by (simp add: select_files_def Let_def)

lemma map_file_name_process_file:
  "map file_name (map (\<lambda>fname. process_file load pyin (fname, truth)) fs) = fs"
  by (induction fs) (simp_all add: file_name_process_file)

section \<open>The claims\<close>

text \<open>
  Claim C1. For every present pitch estimate \<open>f\<close> (the mean of one or more voiced
  frames), \<open>classify_gender\<close> returns the label male exactly when
  \<open>85 \<le> f \<le> 150\<close>, female exactly when \<open>150 < f \<le> 255\<close>, and unclassified
  exactly when \<open>f\<close> is below 85 or above 255; the frequency returned is \<open>f\<close>. The
  instances at 85, 150, 255 and just outside the bands follow.
\<close>

theorem classify_gender_bands:
  assumes "load p = Inr w" and "pyin w = Inr fs" and "remove_nan fs \<noteq> []"
  shows "(fst (classify_gender load pyin p) = ''male''
            \<longleftrightarrow> 85 \<le> np_mean (remove_nan fs) \<and> np_mean (remove_nan fs) \<le> 150)
       \<and> (fst (classify_gender load pyin p) = ''female''
            \<longleftrightarrow> 150 < np_mean (remove_nan fs) \<and> np_mean (remove_nan fs) \<le> 255)
       \<and> (fst (classify_gender load pyin p) = ''unclassified''
            \<longleftrightarrow> np_mean (remove_nan fs) < 85 \<or> 255 < np_mean (remove_nan fs))
       \<and> snd (classify_gender load pyin p) = Some (np_mean (remove_nan fs))"
  using assms by (auto simp: classify_gender_voiced [of load p w pyin fs] Let_def)

theorem classify_gender_bands_witness:
  "fst (classify_gender (\<lambda>p. Inr p) (\<lambda>w. Inr [Hz 85]) ''a.mp3'') = ''male''
   \<and> fst (classify_gender (\<lambda>p. Inr p) (\<lambda>w. Inr [Hz 150]) ''a.mp3'') = ''male''
   \<and> fst (classify_gender (\<lambda>p. Inr p) (\<lambda>w. Inr [Hz 255]) ''a.mp3'') = ''female''
   \<and> fst (classify_gender (\<lambda>p. Inr p) (\<lambda>w. Inr [Hz (1500001 / 10000)]) ''a.mp3'') = ''female''
   \<and> fst (classify_gender (\<lambda>p. Inr p) (\<lambda>w. Inr [Hz (849999 / 10000)]) ''a.mp3'') = ''unclassified''
   \<and> fst (classify_gender (\<lambda>p. Inr p) (\<lambda>w. Inr [Hz (2550001 / 10000)]) ''a.mp3'') = ''unclassified''"
  using classify_gender_bands [of "\<lambda>p. Inr p" "''a.mp3''" "''a.mp3''" "\<lambda>w. Inr [Hz 85]" "[Hz 85]"]
    classify_gender_bands [of "\<lambda>p. Inr p" "''a.mp3''" "''a.mp3''" "\<lambda>w. Inr [Hz 150]" "[Hz 150]"]
    classify_gender_bands [of "\<lambda>p. Inr p" "''a.mp3''" "''a.mp3''" "\<lambda>w. Inr [Hz 255]" "[Hz 255]"]
    classify_gender_bands [of "\<lambda>p. Inr p" "''a.mp3''" "''a.mp3''" "\<lambda>w. Inr [Hz (1500001 / 10000)]" "[Hz (1500001 / 10000)]"]
    classify_gender_bands [of "\<lambda>p. Inr p" "''a.mp3''" "''a.mp3''" "\<lambda>w. Inr [Hz (849999 / 10000)]" "[Hz (849999 / 10000)]"]
    classify_gender_bands [of "\<lambda>p. Inr p" "''a.mp3''" "''a.mp3''" "\<lambda>w. Inr [Hz (2550001 / 10000)]" "[Hz (2550001 / 10000)]"]
  by (simp add: f64_eval)

text \<open>
  Claim C2. For every record that \<open>process_file\<close> produces, whatever the audio
  collaborators do and whatever the ground-truth table holds, exactly one of the flags
  correct, incorrect and unclassified is true; the predicted label is one of male,
  female, unclassified and error.
\<close>

theorem process_file_exactly_one_flag:
  "((correct (process_file load pyin a) \<and> \<not> incorrect (process_file load pyin a)
       \<and> \<not> unclassified (process_file load pyin a))
    \<or> (\<not> correct (process_file load pyin a) \<and> incorrect (process_file load pyin a)
       \<and> \<not> unclassified (process_file load pyin a))
    \<or> (\<not> correct (process_file load pyin a) \<and> \<not> incorrect (process_file load pyin a)
       \<and> unclassified (process_file load pyin a)))
   \<and> predicted (process_file load pyin a) \<in> {''male'', ''female'', ''unclassified'', ''error''}"
proof (cases a)
  case (Pair fname truth)
  have "predicted (process_file load pyin (fname, truth)) \<in> {''male'', ''female'', ''unclassified'', ''error''}"
    using classify_gender_labels [of load pyin "path_join AUDIO_DIR fname"]
    by (simp add: process_file_eq)
  moreover have "one_flag (process_file load pyin (fname, truth))"
    by (rule process_file_one_flag)
  ultimately show ?thesis
    unfolding Pair one_flag_def by blast
qed

theorem process_file_exactly_one_flag_witness:
  "correct (process_file demo_load demo_pyin (''clip1.mp3'', demo_truth))
   \<and> unclassified (process_file demo_load demo_pyin (''clip2.mp3'', demo_truth))
   \<and> incorrect (process_file demo_load demo_pyin (''clip3.mp3'', demo_truth))
   \<and> unclassified (process_file demo_load demo_pyin (''clip4.mp3'', demo_truth))
   \<and> unclassified (process_file demo_load demo_pyin (''clip5.mp3'', demo_truth))"
  using process_file_exactly_one_flag [of demo_load demo_pyin "(''clip1.mp3'', demo_truth)"]
    process_file_exactly_one_flag [of demo_load demo_pyin "(''clip2.mp3'', demo_truth)"]
    process_file_exactly_one_flag [of demo_load demo_pyin "(''clip3.mp3'', demo_truth)"]
  by (simp add: process_file_eq classify_gender_def demo_load_def demo_pyin_def demo_truth_def
      AUDIO_DIR_def path_join_def dict_get_def np_mean_demo)

text \<open>
  Claim C3. On a fixed directory listing, ground-truth table and pair of audio
  collaborators, a run with one thread produces the same output whatever the scheduler
  does, so two such runs write identical results tables. A run with one thread and a run
  with more than one thread (four, say), on the same selection of files and under any
  completion order of the pool, produce the same multiset of records and of table lines,
  the same header, the same counters and the same rates.
\<close>

theorem run_deterministic:
  assumes "opt_threads a1 \<le> 1" and "opt_threads a4 > 1" and "opt_all a4 = opt_all a1"
    and "completion_order (length (select_files a4 listing)) order4"
  shows "main a1 listing truth load pyin order = main a1 listing truth load pyin order'
       \<and> (\<exists>out1 out4.
            main a1 listing truth load pyin order = Inr out1
          \<and> main a4 listing truth load pyin order4 = Inr out4
          \<and> mset (results (summary out1)) = mset (results (summary out4))
          \<and> mset (table_lines out1) = mset (table_lines out4)
          \<and> table_header out1 = table_header out4
          \<and> counters (summary out1) = counters (summary out4)
          \<and> printed_rates out1 = printed_rates out4)"
proof -
  have seq: "main a1 listing truth load pyin order = main a1 listing truth load pyin order'"
    using assms(1) by (simp add: main_Inr)
  obtain out1 where o1: "main a1 listing truth load pyin order = Inr out1"
    and s1: "summary out1 = foldl record_row tally0 (collected a1 listing truth load pyin order)"
    and h1: "table_header out1 = fieldnames"
    and l1: "table_lines out1 = map csv_line_of (results (summary out1))"
    and r1: "printed_rates out1 =
         (if n_total (summary out1) > 0
          then Some (real (n_correct (summary out1)) / real (n_total (summary out1)),
                     real (n_incorrect (summary out1)) / real (n_total (summary out1)),
                     real (n_unclassified (summary out1)) / real (n_total (summary out1)))
          else None)"
    using main_collected [of a1 listing truth load pyin order] by blast
  obtain out4 where o4: "main a4 listing truth load pyin order4 = Inr out4"
    and s4: "summary out4 = foldl record_row tally0 (collected a4 listing truth load pyin order4)"
    and h4: "table_header out4 = fieldnames"
    and l4: "table_lines out4 = map csv_line_of (results (summary out4))"
    and r4: "printed_rates out4 =
         (if n_total (summary out4) > 0
          then Some (real (n_correct (summary out4)) / real (n_total (summary out4)),
                     real (n_incorrect (summary out4)) / real (n_total (summary out4)),
                     real (n_unclassified (summary out4)) / real (n_total (summary out4)))
          else None)"
    using main_collected [of a4 listing truth load pyin order4] by blast
  have sel: "select_files a4 listing = select_files a1 listing"
    using assms(3) by (simp add: select_files_def)
  have "mset (collected a4 listing truth load pyin order4) =
        mset (map (\<lambda>fname. process_file load pyin (fname, truth)) (select_files a4 listing))"
    using assms(4) by (intro mset_collected) simp
  moreover have "collected a1 listing truth load pyin order =
        map (\<lambda>fname. process_file load pyin (fname, truth)) (select_files a1 listing)"
    using assms(1) by (simp add: collected_def)
  ultimately have ms: "mset (collected a1 listing truth load pyin order) =
        mset (collected a4 listing truth load pyin order4)"
    by (simp add: sel)
  have res: "mset (results (summary out1)) = mset (results (summary out4))"
    using ms by (simp add: s1 s4 tally_foldl)
  have lines: "mset (table_lines out1) = mset (table_lines out4)"
    unfolding l1 l4 mset_map using res by simp
  have cnt: "counters (summary out1) = counters (summary out4)"
    unfolding s1 s4 by (rule counters_mset_cong [OF ms])
  have rts: "printed_rates out1 = printed_rates out4"
    using cnt unfolding r1 r4 by (simp add: counters_def)
  have "\<exists>out1 out4.
            main a1 listing truth load pyin order = Inr out1
          \<and> main a4 listing truth load pyin order4 = Inr out4
          \<and> mset (results (summary out1)) = mset (results (summary out4))
          \<and> mset (table_lines out1) = mset (table_lines out4)
          \<and> table_header out1 = table_header out4
          \<and> counters (summary out1) = counters (summary out4)
          \<and> printed_rates out1 = printed_rates out4"
    using o1 o4 res lines h1 h4 cnt rts
    by (intro exI [of _ out1] exI [of _ out4]) simp
  with seq show ?thesis by (rule conjI)
qed

theorem run_deterministic_witness:
  "\<exists>out1 out4.
      main \<lparr>opt_all = False, opt_threads = 1\<rparr> demo_listing demo_truth demo_load demo_pyin [] = Inr out1
    \<and> main \<lparr>opt_all = False, opt_threads = 1\<rparr> demo_listing demo_truth demo_load demo_pyin [1, 0] = Inr out1
    \<and> main \<lparr>opt_all = False, opt_threads = 4\<rparr> demo_listing demo_truth demo_load demo_pyin [4, 2, 0, 1, 3] = Inr out4
    \<and> mset (table_lines out1) = mset (table_lines out4)
    \<and> counters (summary out1) = counters (summary out4)"
proof -
  have sel: "select_files \<lparr>opt_all = False, opt_threads = 4\<rparr> demo_listing =
      [''clip1.mp3'', ''clip2.mp3'', ''clip3.mp3'', ''clip4.mp3'', ''clip5.mp3'']"
    by code_simp
  have ord: "completion_order (length (select_files \<lparr>opt_all = False, opt_threads = 4\<rparr> demo_listing))
      [4, 2, 0, 1, 3]"
    unfolding sel completion_order_def by code_simp
  show ?thesis
    using run_deterministic [of "\<lparr>opt_all = False, opt_threads = 1\<rparr>"
        "\<lparr>opt_all = False, opt_threads = 4\<rparr>" demo_listing "[4, 2, 0, 1, 3]"
        demo_truth demo_load demo_pyin "[]" "[1, 0]", OF _ _ _ ord]
    by simp metis
qed

text \<open>
  Claim C4. Every run completes with counters that satisfy total = correct + incorrect +
  unclassified, where the total is the number of records collected and each of the three
  counters is the number of collected records whose flag of that name is true.
\<close>

theorem aggregate_invariant:
  assumes "opt_threads args > 1 \<longrightarrow> completion_order (length (select_files args listing)) order"
  shows "\<exists>out. main args listing truth load pyin order = Inr out
       \<and> n_total (summary out) =
           n_correct (summary out) + n_incorrect (summary out) + n_unclassified (summary out)
       \<and> n_total (summary out) = length (results (summary out))
       \<and> n_correct (summary out) = length (filter correct (results (summary out)))
       \<and> n_incorrect (summary out) = length (filter incorrect (results (summary out)))
       \<and> n_unclassified (summary out) = length (filter unclassified (results (summary out)))"
proof -
  obtain out where o: "main args listing truth load pyin order = Inr out"
    and s: "summary out = foldl record_row tally0 (collected args listing truth load pyin order)"
    using main_collected [of args listing truth load pyin order] by blast
  let ?rs = "collected args listing truth load pyin order"
  have flags: "\<forall>r \<in> set ?rs. one_flag r"
    by (rule collected_one_flag [OF assms])
  have res: "results (summary out) = ?rs"
    by (simp add: s tally_foldl)
  have cnt: "counters (summary out) =
      (length ?rs, length (filter correct ?rs), length (filter incorrect ?rs),
       length (filter unclassified ?rs))"
    unfolding s by (rule counters_one_flag [OF flags])
  have sum: "length (filter correct ?rs) + length (filter incorrect ?rs)
      + length (filter unclassified ?rs) = length ?rs"
    by (rule filter_flags(3) [OF flags])
  show ?thesis
    using o cnt sum by (intro exI [of _ out]) (simp add: res counters_def)
qed

theorem aggregate_invariant_witness:
  "\<exists>out. main \<lparr>opt_all = True, opt_threads = 4\<rparr> demo_listing demo_truth demo_load demo_pyin
             [4, 2, 0, 1, 3] = Inr out
       \<and> n_total (summary out) =
           n_correct (summary out) + n_incorrect (summary out) + n_unclassified (summary out)
       \<and> n_total (summary out) = 5"
proof -
  have sel: "select_files \<lparr>opt_all = True, opt_threads = 4\<rparr> demo_listing =
      [''clip1.mp3'', ''clip2.mp3'', ''clip3.mp3'', ''clip4.mp3'', ''clip5.mp3'']"
    by code_simp
  have ord: "completion_order (length (select_files \<lparr>opt_all = True, opt_threads = 4\<rparr> demo_listing))
      [4, 2, 0, 1, 3]"
    unfolding sel completion_order_def by code_simp
  have len: "length (collected \<lparr>opt_all = True, opt_threads = 4\<rparr> demo_listing demo_truth
      demo_load demo_pyin [4, 2, 0, 1, 3]) = 5"
    by (simp add: collected_def as_completed_def)
  obtain out where o: "main \<lparr>opt_all = True, opt_threads = 4\<rparr> demo_listing demo_truth demo_load
        demo_pyin [4, 2, 0, 1, 3] = Inr out"
    and inv: "n_total (summary out) =
           n_correct (summary out) + n_incorrect (summary out) + n_unclassified (summary out)"
    and tot: "n_total (summary out) = length (results (summary out))"
    using aggregate_invariant [of "\<lparr>opt_all = True, opt_threads = 4\<rparr>" demo_listing "[4, 2, 0, 1, 3]"
        demo_truth demo_load demo_pyin] ord
    by blast
  have "summary out = foldl record_row tally0
      (collected \<lparr>opt_all = True, opt_threads = 4\<rparr> demo_listing demo_truth demo_load demo_pyin
         [4, 2, 0, 1, 3])"
    using o main_collected [of "\<lparr>opt_all = True, opt_threads = 4\<rparr>" demo_listing demo_truth
        demo_load demo_pyin "[4, 2, 0, 1, 3]"]
    by auto
  then have "n_total (summary out) = 5"
    using tot len by (simp only: tally_foldl(1))
  with o inv show ?thesis by blast
qed

text \<open>
  Claim C5. If loading or pitch tracking raises for a selected file, the record of that
  file has the predicted label error, no frequency, the unclassified flag true and the
  other two flags false, and it still carries the result of the ground-truth lookup. The
  run does not abort: it completes with one record for every selected file, the degraded
  record among them, and the unclassified counter counts the records whose unclassified
  flag is true.
\<close>

theorem fault_degrades_one_record:
  assumes "load (path_join AUDIO_DIR fname) = Inl e
           \<or> (\<exists>w. load (path_join AUDIO_DIR fname) = Inr w \<and> pyin w = Inl e)"
    and "fname \<in> set (select_files args listing)"
    and "opt_threads args > 1 \<longrightarrow> completion_order (length (select_files args listing)) order"
  shows "process_file load pyin (fname, truth) =
           \<lparr> file_name = fname, predicted = ''error'', mean_freq = None,
             ground_truth = dict_get truth fname ''unknown'',
             correct = False, unclassified = True, incorrect = False \<rparr>
       \<and> (\<exists>out. main args listing truth load pyin order = Inr out
            \<and> length (results (summary out)) = length (select_files args listing)
            \<and> process_file load pyin (fname, truth) \<in> set (results (summary out))
            \<and> n_unclassified (summary out) = length (filter unclassified (results (summary out))))"
proof -
  have cg: "classify_gender load pyin (path_join AUDIO_DIR fname) = (''error'', None)"
    using assms(1) by (auto simp: classify_gender_def)
  have row: "process_file load pyin (fname, truth) =
           \<lparr> file_name = fname, predicted = ''error'', mean_freq = None,
             ground_truth = dict_get truth fname ''unknown'',
             correct = False, unclassified = True, incorrect = False \<rparr>"
    by (simp add: process_file_eq cg)
  obtain out where o: "main args listing truth load pyin order = Inr out"
    and s: "summary out = foldl record_row tally0 (collected args listing truth load pyin order)"
    using main_collected [of args listing truth load pyin order] by blast
  let ?rs = "collected args listing truth load pyin order"
  have res: "results (summary out) = ?rs"
    by (simp add: s tally_foldl)
  have len: "length ?rs = length (select_files args listing)"
    using mset_eq_length [OF mset_collected [OF assms(3), of truth load pyin]] by simp
  have mem: "process_file load pyin (fname, truth) \<in> set ?rs"
    using assms(2) by (simp add: set_collected [OF assms(3)])
  have flags: "\<forall>r \<in> set ?rs. one_flag r"
    by (rule collected_one_flag [OF assms(3)])
  have "counters (summary out) =
      (length ?rs, length (filter correct ?rs), length (filter incorrect ?rs),
       length (filter unclassified ?rs))"
    unfolding s by (rule counters_one_flag [OF flags])
  then have uncl: "n_unclassified (summary out) = length (filter unclassified ?rs)"
    by (simp add: counters_def)
  have "\<exists>out. main args listing truth load pyin order = Inr out
            \<and> length (results (summary out)) = length (select_files args listing)
            \<and> process_file load pyin (fname, truth) \<in> set (results (summary out))
            \<and> n_unclassified (summary out) = length (filter unclassified (results (summary out)))"
    using o len mem uncl by (intro exI [of _ out]) (simp add: res)
  with row show ?thesis by (rule conjI)
qed

theorem fault_degrades_one_record_witness:
  "process_file demo_load demo_pyin (''clip4.mp3'', demo_truth) =
           \<lparr> file_name = ''clip4.mp3'', predicted = ''error'', mean_freq = None,
             ground_truth = ''female'',
             correct = False, unclassified = True, incorrect = False \<rparr>
   \<and> (\<exists>out. main \<lparr>opt_all = False, opt_threads = 1\<rparr> demo_listing demo_truth demo_load demo_pyin []
              = Inr out
        \<and> length (results (summary out)) = 5)"
proof -
  have sel: "select_files \<lparr>opt_all = False, opt_threads = 1\<rparr> demo_listing =
      [''clip1.mp3'', ''clip2.mp3'', ''clip3.mp3'', ''clip4.mp3'', ''clip5.mp3'']"
    by code_simp
  have fault: "demo_load (path_join AUDIO_DIR ''clip4.mp3'') = Inl (Exception ''decode fault'')
      \<or> (\<exists>w. demo_load (path_join AUDIO_DIR ''clip4.mp3'') = Inr w
              \<and> demo_pyin w = Inl (Exception ''decode fault''))"
    by (simp add: demo_load_def AUDIO_DIR_def path_join_def)
  have mem: "''clip4.mp3'' \<in> set (select_files \<lparr>opt_all = False, opt_threads = 1\<rparr> demo_listing)"
    by (simp add: sel)
  have len5: "length (select_files \<lparr>opt_all = False, opt_threads = 1\<rparr> demo_listing) = 5"
    by (simp add: sel)
  have gt: "dict_get demo_truth ''clip4.mp3'' ''unknown'' = ''female''"
    by (simp add: dict_get_def demo_truth_def)
  show ?thesis
    using fault mem
      fault_degrades_one_record [where load = demo_load and pyin = demo_pyin
        and fname = "''clip4.mp3''" and e = "Exception ''decode fault''"
        and args = "\<lparr>opt_all = False, opt_threads = 1\<rparr>" and listing = demo_listing
        and order = "[]" and truth = demo_truth]
    by (simp add: len5 gt) blast
qed

text \<open>
  Claim C6. The lookup of a file identifier absent from the ground-truth table yields the
  sentinel unknown, the record stores the result of the lookup, and a record whose
  ground-truth label is unknown never has its correct flag true, whatever was predicted.
\<close>

theorem unknown_never_correct:
  "(truth fname = None \<longrightarrow> dict_get truth fname ''unknown'' = ''unknown'')
   \<and> ground_truth (process_file load pyin (fname, truth)) = dict_get truth fname ''unknown''
   \<and> (ground_truth (process_file load pyin (fname, truth)) = ''unknown''
        \<longrightarrow> \<not> correct (process_file load pyin (fname, truth)))"
  by (auto simp: process_file_eq dict_get_def)

theorem unknown_never_correct_witness:
  "demo_truth ''clip5.mp3'' = None
   \<and> ground_truth (process_file demo_load demo_pyin (''clip5.mp3'', demo_truth)) = ''unknown''
   \<and> \<not> correct (process_file demo_load demo_pyin (''clip5.mp3'', demo_truth))"
proof -
  have absent: "demo_truth ''clip5.mp3'' = None"
    by (simp add: demo_truth_def)
  show ?thesis
    using unknown_never_correct [of demo_truth "''clip5.mp3''" demo_load demo_pyin] absent
    by simp
qed




text \<open>
  Claim C8. In every run the final counters (total, correct, incorrect, unclassified) equal
  the specification's single fold over the finished sequence of records, which counts the
  records by their flags. The counters come from the collecting loop alone: the final
  state is that loop run over the finished sequence, and after every prefix of the
  sequence the incrementally maintained counters equal the fold over that prefix.
\<close>

theorem counters_refine_fold:
  assumes "opt_threads args > 1 \<longrightarrow> completion_order (length (select_files args listing)) order"
  shows "\<exists>out. main args listing truth load pyin order = Inr out
       \<and> summary out = foldl record_row tally0 (results (summary out))
       \<and> counters (summary out) = fold_summary (results (summary out))
       \<and> (\<forall>k \<le> length (results (summary out)).
            counters (foldl record_row tally0 (take k (results (summary out))))
              = fold_summary (take k (results (summary out))))"
proof -
  obtain out where o: "main args listing truth load pyin order = Inr out"
    and s: "summary out = foldl record_row tally0 (collected args listing truth load pyin order)"
    using main_collected [of args listing truth load pyin order] by blast
  let ?rs = "collected args listing truth load pyin order"
  have flags: "\<forall>r \<in> set ?rs. one_flag r"
    by (rule collected_one_flag [OF assms])
  have res: "results (summary out) = ?rs"
    by (simp add: s tally_foldl)
  have final: "counters (summary out) = fold_summary (results (summary out))"
    unfolding res unfolding s by (simp add: counters_one_flag [OF flags] fold_summary_eq)
  have steps: "counters (foldl record_row tally0 (take k ?rs)) = fold_summary (take k ?rs)" for k
  proof -
    have "\<forall>r \<in> set (take k ?rs). one_flag r"
      using flags by (meson in_set_takeD)
    then show ?thesis
      by (simp add: counters_one_flag fold_summary_eq)
  qed
  have loop: "summary out = foldl record_row tally0 (results (summary out))"
    unfolding res by (rule s)
  show ?thesis
  proof (intro exI [of _ out] conjI)
    show "main args listing truth load pyin order = Inr out"
      by (rule o)
    show "summary out = foldl record_row tally0 (results (summary out))"
      by (rule loop)
    show "counters (summary out) = fold_summary (results (summary out))"
      by (rule final)
    show "\<forall>k \<le> length (results (summary out)).
            counters (foldl record_row tally0 (take k (results (summary out))))
              = fold_summary (take k (results (summary out)))"
      unfolding res using steps by simp
  qed
qed

theorem counters_refine_fold_witness:
  "\<exists>out. main \<lparr>opt_all = False, opt_threads = 1\<rparr> demo_listing demo_truth demo_load demo_pyin [] = Inr out
       \<and> counters (summary out) = fold_summary (results (summary out))
       \<and> counters (foldl record_row tally0 (take 2 (results (summary out))))
              = fold_summary (take 2 (results (summary out)))
       \<and> length (results (summary out)) = 5"
proof -
  obtain out where o: "main \<lparr>opt_all = False, opt_threads = 1\<rparr> demo_listing demo_truth demo_load
        demo_pyin [] = Inr out"
    and fin: "counters (summary out) = fold_summary (results (summary out))"
    and steps: "\<forall>k \<le> length (results (summary out)).
            counters (foldl record_row tally0 (take k (results (summary out))))
              = fold_summary (take k (results (summary out)))"
    using counters_refine_fold [of "\<lparr>opt_all = False, opt_threads = 1\<rparr>" demo_listing "[]"
        demo_truth demo_load demo_pyin]
    by auto
  have sel: "select_files \<lparr>opt_all = False, opt_threads = 1\<rparr> demo_listing =
      [''clip1.mp3'', ''clip2.mp3'', ''clip3.mp3'', ''clip4.mp3'', ''clip5.mp3'']"
    by code_simp
  have "summary out = foldl record_row tally0
      (collected \<lparr>opt_all = False, opt_threads = 1\<rparr> demo_listing demo_truth demo_load demo_pyin [])"
    using o main_collected [of "\<lparr>opt_all = False, opt_threads = 1\<rparr>" demo_listing demo_truth
        demo_load demo_pyin "[]"]
    by auto
  moreover have "length (collected \<lparr>opt_all = False, opt_threads = 1\<rparr> demo_listing demo_truth
      demo_load demo_pyin []) = 5"
    by (simp add: collected_def sel)
  ultimately have len: "length (results (summary out)) = 5"
    by (simp only: tally_foldl(1))
  then have "counters (foldl record_row tally0 (take 2 (results (summary out))))
              = fold_summary (take 2 (results (summary out)))"
    using steps by simp
  with o fin len show ?thesis by blast
qed

text \<open>
  Claim C9. The candidate list is the sorted list of the directory entries that end in
  \<^verbatim>\<open>.mp3\<close>. Without \<^verbatim>\<open>--all\<close> the run processes exactly its first ten entries, with
  \<^verbatim>\<open>--all\<close> the whole list: the file names of the collected records are that list, in
  that order when the run is sequential and as a multiset in general.
\<close>

theorem default_run_first_ten:
  assumes "opt_threads args > 1 \<longrightarrow> completion_order (length (select_files args listing)) order"
  shows "\<exists>out. main args listing truth load pyin order = Inr out
       \<and> mset (map file_name (results (summary out)))
           = mset (if opt_all args then candidates listing else take 10 (candidates listing))
       \<and> (opt_threads args \<le> 1 \<longrightarrow>
            map file_name (results (summary out))
              = (if opt_all args then candidates listing else take 10 (candidates listing)))
       \<and> sorted (candidates listing)
       \<and> mset (candidates listing) = mset (filter (\<lambda>f. endswith f ''.mp3'') listing)"
proof -
  obtain out where o: "main args listing truth load pyin order = Inr out"
    and s: "summary out = foldl record_row tally0 (collected args listing truth load pyin order)"
    using main_collected [of args listing truth load pyin order] by blast
  let ?rs = "collected args listing truth load pyin order"
  let ?all = "map (\<lambda>fname. process_file load pyin (fname, truth)) (select_files args listing)"
  have res: "results (summary out) = ?rs"
    by (simp add: s tally_foldl)
  have "mset (map file_name ?rs) = image_mset file_name (mset ?rs)"
    by simp
  also have "\<dots> = image_mset file_name (mset ?all)"
    by (simp only: mset_collected [OF assms])
  also have "\<dots> = mset (map file_name ?all)"
    by (simp only: mset_map)
  also have "\<dots> = mset (select_files args listing)"
    by (simp only: map_file_name_process_file)
  finally have ms: "mset (map file_name ?rs) = mset (select_files args listing)" .
  have sq: "map file_name ?rs = select_files args listing" if "opt_threads args \<le> 1"
  proof -
    have "?rs = ?all"
      using that by (simp add: collected_def)
    then show ?thesis
      by (simp only: map_file_name_process_file)
  qed
  show ?thesis
    using o ms sq candidates_sorted_perm [of listing]
    by (intro exI [of _ out]) (simp add: res select_files_eq)
qed

theorem default_run_first_ten_witness:
  "\<exists>out. main \<lparr>opt_all = False, opt_threads = 1\<rparr> long_listing demo_truth demo_load demo_pyin [] = Inr out
       \<and> map file_name (results (summary out))
           = [''a.mp3'', ''b.mp3'', ''c.mp3'', ''d.mp3'', ''e.mp3'', ''f.mp3'', ''g.mp3'', ''h.mp3'',
              ''i.mp3'', ''j.mp3'']
       \<and> length (candidates long_listing) = 11"
proof -
  have cands: "candidates long_listing =
      [''a.mp3'', ''b.mp3'', ''c.mp3'', ''d.mp3'', ''e.mp3'', ''f.mp3'', ''g.mp3'', ''h.mp3'',
       ''i.mp3'', ''j.mp3'', ''k.mp3'']"
    by code_simp
  have len: "length (candidates long_listing) = 11"
    by (simp add: cands)
  obtain out where o: "main \<lparr>opt_all = False, opt_threads = 1\<rparr> long_listing demo_truth demo_load
        demo_pyin [] = Inr out"
    and names: "map file_name (results (summary out)) = take 10 (candidates long_listing)"
    using default_run_first_ten [of "\<lparr>opt_all = False, opt_threads = 1\<rparr>" long_listing "[]"
        demo_truth demo_load demo_pyin]
    by auto
  have "map file_name (results (summary out))
           = [''a.mp3'', ''b.mp3'', ''c.mp3'', ''d.mp3'', ''e.mp3'', ''f.mp3'', ''g.mp3'', ''h.mp3'',
              ''i.mp3'', ''j.mp3'']"
    unfolding names cands by simp
  with o len show ?thesis
    by (intro exI [of _ out]) simp
qed

text \<open>
  Claim C10. The rates never fail with a division by zero, for any state of the counters:
  they are computed exactly when the total is positive. Hence every run completes and writes
  the table header, and a run on an empty candidate list writes the header and no line,
  with all counters zero and no rate printed.
\<close>

theorem rates_never_divide_by_zero:
  assumes "opt_threads args > 1 \<longrightarrow> completion_order (length (select_files args listing)) order"
  shows "(\<exists>rs. rates st = Inr rs \<and> (rs = None \<longleftrightarrow> n_total st = 0))
       \<and> (\<exists>out. main args listing truth load pyin order = Inr out
             \<and> table_header out = fieldnames
             \<and> (printed_rates out = None \<longleftrightarrow> n_total (summary out) = 0))
       \<and> (candidates listing = [] \<longrightarrow>
             main args listing truth load pyin order =
               Inr \<lparr> table_header = fieldnames, table_lines = [], summary = tally0,
                     printed_rates = None \<rparr>)"
proof -
  have r: "\<exists>rs. rates st = Inr rs \<and> (rs = None \<longleftrightarrow> n_total st = 0)"
    by (simp add: rates_Inr)
  have m: "\<exists>out. main args listing truth load pyin order = Inr out
             \<and> table_header out = fieldnames
             \<and> (printed_rates out = None \<longleftrightarrow> n_total (summary out) = 0)"
    using main_collected [of args listing truth load pyin order] by auto
  have e: "main args listing truth load pyin order =
               Inr \<lparr> table_header = fieldnames, table_lines = [], summary = tally0,
                     printed_rates = None \<rparr>" if "candidates listing = []"
  proof -
    have sel: "select_files args listing = []"
      using that by (simp add: select_files_eq)
    have "opt_threads args > 1 \<longrightarrow> order = []"
      using assms by (simp add: sel completion_order_def)
    then have "collected args listing truth load pyin order = []"
      by (simp add: collected_def sel as_completed_def)
    then have st: "(if opt_threads args > 1
              then collect_threaded load pyin truth (select_files args listing) order
              else collect_sequential load pyin truth (select_files args listing)) = tally0"
      by (simp add: collected_def collect_threaded_foldl collect_sequential_foldl split: if_splits)
    show ?thesis
      unfolding main_Inr st by (simp add: tally0_def)
  qed
  show ?thesis
    by (intro conjI impI) (rule r, rule m, erule e)
qed

theorem rates_never_divide_by_zero_witness:
  "rates tally0 = Inr None
   \<and> main \<lparr>opt_all = True, opt_threads = 4\<rparr> [''notes.txt'', ''clip.wav''] demo_truth demo_load demo_pyin []
       = Inr \<lparr> table_header = fieldnames, table_lines = [], summary = tally0,
               printed_rates = None \<rparr>"
proof -
  have cands: "candidates [''notes.txt'', ''clip.wav''] = []"
    by code_simp
  have sel: "select_files \<lparr>opt_all = True, opt_threads = 4\<rparr> [''notes.txt'', ''clip.wav''] = []"
    by (simp add: select_files_eq cands)
  have ord: "opt_threads \<lparr>opt_all = True, opt_threads = 4\<rparr> > 1 \<longrightarrow>
      completion_order (length (select_files \<lparr>opt_all = True, opt_threads = 4\<rparr>
        [''notes.txt'', ''clip.wav''])) []"
    by (simp add: sel completion_order_def)
  have t0: "n_total tally0 = 0"
    by (simp add: tally0_def)
  have "(\<exists>rs. rates tally0 = Inr rs \<and> (rs = None \<longleftrightarrow> n_total tally0 = 0))
      \<and> main \<lparr>opt_all = True, opt_threads = 4\<rparr> [''notes.txt'', ''clip.wav''] demo_truth
            demo_load demo_pyin []
          = Inr \<lparr> table_header = fieldnames, table_lines = [], summary = tally0,
                  printed_rates = None \<rparr>"
    using rates_never_divide_by_zero [OF ord, of tally0 demo_truth demo_load demo_pyin] cands
    by (simp only: simp_thms)
  then show ?thesis
    using t0 by (simp only: simp_thms) metis
qed

end
